theory Spec2Isabelle
  imports Complex_Main "HOL-Library.Word" "HOL-Library.Code_Target_Numeral"
begin

section \<open>Values, errors and the log\<close>

text \<open>
  The reader works on a \<open>Uint8Array\<close>: a list of 8-bit words. Numbers that the
  reader unpacks (groups, elements, lengths, cursors) are non-negative integers far below
  \<open>2^53\<close>, so they are natural numbers here. Numbers of the pixel pipeline are
  rationals: every value the theorems below evaluate is a dyadic rational that a double
  holds exactly.

  A \<open>throw\<close>, and a \<open>TypeError\<close> raised by the runtime (a property read or a
  destructuring of \<open>undefined\<close>), is the left summand of the result type.
  \<open>Unmodelled\<close> marks the inputs on which the source goes on with a value the model
  does not follow (a tag value that is not a number where the pixel pipeline computes with
  it, a header unpacked with the pattern of the other mode); no theorem below reads it as
  a throw.
\<close>

type_synonym byte = "8 word"

datatype error = Error | TypeError | Unmodelled

text \<open>The calls of \<open>console.error\<close>, in the order made.\<close>

datatype log_entry =
    MissingDicomFileMetaInformationHeader
  | UnhandledNullVR
  | UnhandledSQ
  | UnhandledUndefinedLength
  | DeflateNotImplemented
  | WrongTagIdentifier

datatype jsval = JNum rat | JStr string | JBytes "byte list" | JList "jsval list"

text \<open>Sequencing: a throw ends the evaluation. Reading a property of \<open>undefined\<close> is
  a TypeError.\<close>

definition andThen :: "error + 'a \<Rightarrow> ('a \<Rightarrow> error + 'b) \<Rightarrow> error + 'b" where
  "andThen r f = (case r of Inl e \<Rightarrow> Inl e | Inr v \<Rightarrow> f v)"

definition defined :: "'a option \<Rightarrow> error + 'a" where
  "defined t = (case t of None \<Rightarrow> Inl TypeError | Some v \<Rightarrow> Inr v)"

section \<open>Strings of the host language\<close>

definition fromCharCode :: "byte \<Rightarrow> char" where
  "fromCharCode b = char_of (unat b)"

definition charCodeAt :: "char \<Rightarrow> nat" where
  "charCodeAt c = of_char c"

definition digitChar :: "nat \<Rightarrow> char" where
  "digitChar d = ''0123456789abcdef'' ! d"

text \<open>\<open>n.toString(radix)\<close> on a non-negative integer, for a radix from 2 to 16.\<close>

fun toStringRadix :: "nat \<Rightarrow> nat \<Rightarrow> string" where
  "toStringRadix radix n =
     (if radix < 2 \<or> n < radix then [digitChar n]
      else toStringRadix radix (n div radix) @ [digitChar (n mod radix)])"

declare toStringRadix.simps [simp del]

text \<open>The template literal \<open>`${index}`\<close> of a non-negative integer.\<close>

definition showNat :: "nat \<Rightarrow> string" where
  "showNat n = toStringRadix 10 n"

definition takeRight :: "'a list \<Rightarrow> nat \<Rightarrow> 'a list" where
  "takeRight xs n = drop (length xs - n) xs"

definition inRange :: "nat \<Rightarrow> nat \<Rightarrow> nat \<Rightarrow> bool" where
  "inRange number start end' = (min start end' \<le> number \<and> number < max start end')"

section \<open>Uint8Helpers\<close>

definition splitArray :: "byte list \<Rightarrow> nat \<Rightarrow> byte list \<times> byte list" where
  "splitArray array firstArrayElements =
     (take firstArrayElements array, drop firstArrayElements array)"

definition getArrayRange :: "byte list \<Rightarrow> nat \<Rightarrow> nat \<Rightarrow> byte list" where
  "getArrayRange array start range' = take range' (drop start array)"

definition arrayToText :: "byte list \<Rightarrow> string" where
  "arrayToText array = map fromCharCode array"

section \<open>The preamble\<close>

text \<open>
  Modelled from the spec: \<open>Constants.DICOM_MAGIC_PREFIX\<close> (the constants module is not
  among the sources) is the ASCII text \<open>DICM\<close>.
\<close>

definition DICOM_MAGIC_PREFIX :: string where
  "DICOM_MAGIC_PREFIX = ''DICM''"

record cursor_result =
  newCursorPosition :: nat

record preamble_result = cursor_result +
  preamble :: "byte list"

definition readPreamble :: "byte list \<Rightarrow> preamble_result \<times> log_entry list" where
  "readPreamble bytes =
     (let fileMetaInformationHeader = fst (splitArray bytes 132);
          (preamble', magic) = splitArray fileMetaInformationHeader 128;
          magicAsText = arrayToText magic
      in if magicAsText \<noteq> DICOM_MAGIC_PREFIX
         then (\<lparr>newCursorPosition = 0, preamble = []\<rparr>,
               [MissingDicomFileMetaInformationHeader])
         else (\<lparr>newCursorPosition = 132, preamble = preamble'\<rparr>, []))"

section \<open>Bufferpack\<close>

text \<open>
  \<open>Bufferpack.unpack(pattern, bytes)\<close> for the tokens the reader uses: \<open>H\<close> is an
  unsigned 16-bit integer, \<open>L\<close> an unsigned 32-bit integer, \<open>Ns\<close> a text of N
  bytes; the first character of the pattern is the byte order. It gives \<open>undefined\<close>
  (here \<open>None\<close>) when the bytes run out.
\<close>

datatype token = H | L | S nat

datatype unpacked = UNum nat | UStr string

record pattern =
  littleEndian :: bool
  tokens :: "token list"

fun unsignedOf :: "bool \<Rightarrow> byte list \<Rightarrow> nat" where
  "unsignedOf le [] = 0"
| "unsignedOf le (b # bs) =
     (if le then unat b + 256 * unsignedOf le bs
      else unat b * 256 ^ length bs + unsignedOf le bs)"

fun unpackTokens :: "bool \<Rightarrow> token list \<Rightarrow> byte list \<Rightarrow> unpacked list option" where
  "unpackTokens le [] a = Some []"
| "unpackTokens le (t # ts) a =
     (let n = (case t of H \<Rightarrow> 2 | L \<Rightarrow> 4 | S k \<Rightarrow> k)
      in if n > length a then None
         else (case unpackTokens le ts (drop n a) of
                 None \<Rightarrow> None
               | Some rest \<Rightarrow>
                   Some ((case t of S k \<Rightarrow> UStr (arrayToText (take n a))
                                 | _ \<Rightarrow> UNum (unsignedOf le (take n a))) # rest)))"

definition Bufferpack_unpack :: "pattern \<Rightarrow> byte list \<Rightarrow> unpacked list option" where
  "Bufferpack_unpack p a = unpackTokens (littleEndian p) (tokens p) a"

text \<open>
  Modelled from the spec: \<open>getEndianPattern\<close> and \<open>getEndianCharacter\<close> (the helpers
  module is not among the sources). The implicit header is \<open>{endian}HHL\<close>, the explicit
  one \<open>{endian}HH2sH\<close>.
\<close>

definition getEndianPattern :: "bool \<Rightarrow> bool \<Rightarrow> pattern" where
  "getEndianPattern isLittleEndian isImplicitVR =
     \<lparr>littleEndian = isLittleEndian,
      tokens = (if isImplicitVR then [H, H, L] else [H, H, S 2, H])\<rparr>"

text \<open>
  Modelled from the spec: \<open>ExtraLengthVRs\<close> (the constants module is not among the
  sources) is \<open>OB OW OF SQ UT UN\<close>.
\<close>

definition ExtraLengthVRs :: "string list" where
  "ExtraLengthVRs = [''OB'', ''OW'', ''OF'', ''SQ'', ''UT'', ''UN'']"

section \<open>The tag dictionary and the converter\<close>

text \<open>
  One entry of \<open>DicomDictionary\<close>: the tuple (VR, VM, Name, Retired, Keyword) that
  \<open>DicomDictionaryEntriesEnum\<close> indexes.
\<close>

record dict_entry =
  e_VR :: string
  e_VM :: string
  e_Name :: string
  e_Retired :: string
  e_Keyword :: string

record tag_info =
  i_rawValue :: "byte list"
  i_length :: nat
  i_VR :: string

text \<open>
  The constants and the converter module are not among the sources, so the reader takes
  them as parameters: the dictionary (a lookup by the 8-digit hex text of a tag), the
  entry \<open>GroupLengthEntry\<close>, the converter \<open>convertValue\<close> (which may throw) and the
  VRs for which \<open>converters\<close> holds a converter.
\<close>

record env =
  DicomDictionary :: "string \<Rightarrow> dict_entry option"
  GroupLengthEntry :: dict_entry
  convertValue :: "string \<Rightarrow> tag_info \<Rightarrow> bool \<Rightarrow> error + jsval"
  converters :: "string \<Rightarrow> bool"

section \<open>Tags\<close>

record representations =
  r_group :: nat
  r_element :: nat
  r_hexGroup :: string
  r_hexElement :: string
  r_tuple :: "string list"
  r_string :: string
  r_name :: string

text \<open>\<open>ITagValues\<close>: what the dataset reader hands to \<open>createTag\<close>; a VR read in
  implicit mode is \<open>null\<close>.\<close>

record tag_values =
  v_VR :: "string option"
  v_length :: nat
  v_rawValue :: "byte list"
  v_value :: jsval

record tag =
  t_VR :: string
  t_length :: nat
  t_rawValue :: "byte list"
  t_value :: jsval
  t_representations :: representations
  t_representation :: string
  t_name :: string
  t_VM :: string
  t_keyword :: string
  t_retired :: string

text \<open>A text or \<open>null\<close> is truthy when it is a non-empty text.\<close>

definition truthy :: "string option \<Rightarrow> bool" where
  "truthy v = (case v of None \<Rightarrow> False | Some s \<Rightarrow> s \<noteq> [])"

definition getHexRepresentation :: "nat \<Rightarrow> nat \<Rightarrow> string \<times> string" where
  "getHexRepresentation group' element =
     (let hexGroup = takeRight (''0000'' @ toStringRadix 16 group') 4;
          hexElement = takeRight (''0000'' @ toStringRadix 16 element) 4
      in (hexGroup, hexElement))"

definition getTagName :: "dict_entry option \<Rightarrow> bool \<Rightarrow> string" where
  "getTagName dicomDictionaryEntry isPrivateTag =
     (if isPrivateTag then ''PrivateTag''
      else case dicomDictionaryEntry of
             None \<Rightarrow> ''Unknown''
           | Some entry \<Rightarrow> e_Name entry)"

definition createTag :: "env \<Rightarrow> nat \<Rightarrow> nat \<Rightarrow> tag_values \<Rightarrow> error + tag" where
  "createTag E group' element values =
     (let isPrivateTag = (group' mod 2 \<noteq> 0);
          (hexGroup, hexElement) = getHexRepresentation group' element;
          stringRepresentation = hexGroup @ hexElement;
          dicomDictionaryEntry =
            (if hexElement = ''0000'' then Some (GroupLengthEntry E)
             else DicomDictionary E stringRepresentation);
          representations' =
            \<lparr>r_group = group', r_element = element, r_hexGroup = hexGroup,
             r_hexElement = hexElement, r_tuple = [hexGroup, hexElement],
             r_string = stringRepresentation,
             r_name = getTagName dicomDictionaryEntry isPrivateTag\<rparr>
      in if isPrivateTag then
           Inr \<lparr>t_VR = ''Unknown-PrivateTag'', t_length = v_length values,
                t_rawValue = v_rawValue values, t_value = v_value values,
                t_representations = representations',
                t_representation = stringRepresentation,
                t_name = ''Unknown-PrivateTag'', t_VM = ''Unknown-PrivateTag'',
                t_keyword = ''Unknown-PrivateTag'', t_retired = ''Unknown-PrivateTag''\<rparr>
         else if \<not> truthy (v_VR values) \<and> dicomDictionaryEntry = None then Inl TypeError
         else
           Inr \<lparr>t_VR = (if truthy (v_VR values) then the (v_VR values)
                        else e_VR (the dicomDictionaryEntry)),
                t_length = v_length values,
                t_rawValue = v_rawValue values, t_value = v_value values,
                t_representations = representations',
                t_representation = stringRepresentation,
                t_name = getTagName dicomDictionaryEntry False,
                t_VM = (case dicomDictionaryEntry of None \<Rightarrow> ''Unknown''
                        | Some entry \<Rightarrow> e_VM entry),
                t_keyword = (case dicomDictionaryEntry of None \<Rightarrow> ''Unknown''
                        | Some entry \<Rightarrow> e_Keyword entry),
                t_retired = (case dicomDictionaryEntry of None \<Rightarrow> ''Unknown''
                        | Some entry \<Rightarrow> e_Retired entry)\<rparr>)"

text \<open>The reader always passes a group and an element; \<open>!group\<close> holds of 0.\<close>

definition getTagInfo ::
  "env \<Rightarrow> byte list \<Rightarrow> nat \<Rightarrow> nat \<Rightarrow> nat \<Rightarrow> string option \<Rightarrow> error + tag_info" where
  "getTagInfo E rawValue length' group' element VR =
     (if group' = 0 \<and> element = 0 \<and> \<not> truthy VR then Inl Error
      else if truthy VR then
        Inr \<lparr>i_rawValue = rawValue, i_length = length', i_VR = the VR\<rparr>
      else
        let (hexGroup, hexElement) = getHexRepresentation group' element;
            dicomDictionaryEntry = DicomDictionary E (hexGroup @ hexElement);
            guessVR =
              (if hexElement = ''0000'' then e_VR (GroupLengthEntry E)
               else case dicomDictionaryEntry of
                      Some entry \<Rightarrow> e_VR entry
                    | None \<Rightarrow> [])
        in Inr \<lparr>i_rawValue = rawValue, i_length = length', i_VR = guessVR\<rparr>)"

section \<open>The element parser\<close>

definition isUppercaseLetter :: "char \<Rightarrow> bool" where
  "isUppercaseLetter c = inRange (charCodeAt c) (charCodeAt CHR ''A'') (charCodeAt CHR ''Z'')"

text \<open>The header of one element: group, element, VR (or \<open>null\<close>), length, header
  size. Destructuring an \<open>undefined\<close> result of Bufferpack is a TypeError. The reader
  passes the pattern of the mode it reads in; a result of another shape, which only a
  pattern of the other mode gives, is outside the model.\<close>

type_synonym header = "nat \<times> nat \<times> string option \<times> nat \<times> nat"

definition unpack ::
  "byte list \<Rightarrow> byte list \<Rightarrow> pattern \<Rightarrow> bool \<Rightarrow> bool \<Rightarrow> nat \<Rightarrow> error + header" where
  "unpack data tagData elementPattern isImplicitVR isLittleEndian cursor =
     (let defaultTagLength = 8;
          extraLengthPattern = \<lparr>littleEndian = isLittleEndian, tokens = [L]\<rparr>
      in if isImplicitVR then
           (case Bufferpack_unpack elementPattern tagData of
              None \<Rightarrow> Inl TypeError
            | Some (UNum group' # UNum elem # UNum length' # _) \<Rightarrow>
                Inr (group', elem, None, length', defaultTagLength)
            | Some _ \<Rightarrow> Inl Unmodelled)
         else
           (case Bufferpack_unpack elementPattern tagData of
              None \<Rightarrow> Inl TypeError
            | Some (UNum group' # UNum elem # UStr [c0, c1] # UNum length' # _) \<Rightarrow>
                if \<not> (isUppercaseLetter c0 \<and> isUppercaseLetter c1) then
                  (let implicitVRElementPattern = getEndianPattern isLittleEndian True
                   in case Bufferpack_unpack implicitVRElementPattern tagData of
                        None \<Rightarrow> Inl TypeError
                      | Some (UNum group'' # UNum elem' # UNum length'' # _) \<Rightarrow>
                          Inr (group'', elem', None, length'', defaultTagLength)
                      | Some _ \<Rightarrow> Inl Unmodelled)
                else if [c0, c1] \<in> set ExtraLengthVRs then
                  (let extraLength = 4;
                       extraLengthInfo =
                         getArrayRange data (cursor + defaultTagLength) extraLength
                   in case Bufferpack_unpack extraLengthPattern extraLengthInfo of
                        None \<Rightarrow> Inl TypeError
                      | Some (UNum trueLength # _) \<Rightarrow>
                          Inr (group', elem, Some [c0, c1], trueLength,
                               defaultTagLength + extraLength)
                      | Some _ \<Rightarrow> Inl Unmodelled)
                else Inr (group', elem, Some [c0, c1], length', defaultTagLength)
            | Some _ \<Rightarrow> Inl Unmodelled))"

section \<open>Datasets\<close>

text \<open>
  A dataset is a plain object with text keys: an association list in insertion order, with
  no key twice (no key of the reader is an array index, which an object would put first). \<open>has\<close> is lodash's own-key test (the keys the reader builds hold no
  \<open>.\<close> or \<open>[\<close> unless the keyword does), \<open>objGet\<close> a property read, \<open>objSet\<close> the
  assignment \<open>object[key] = value\<close>, which keeps the place of a key that exists.
\<close>

type_synonym 'v object = "(string \<times> 'v) list"

type_synonym Dataset = "tag object"

definition has :: "'v object \<Rightarrow> string \<Rightarrow> bool" where
  "has object key = (key \<in> set (map fst object))"

definition objGet :: "'v object \<Rightarrow> string \<Rightarrow> 'v option" where
  "objGet object key = map_of object key"

definition objSet :: "'v object \<Rightarrow> string \<Rightarrow> 'v \<Rightarrow> 'v object" where
  "objSet object key v =
     (if has object key then map (\<lambda>(k, w). if k = key then (k, v) else (k, w)) object
      else object @ [(key, v)])"

text \<open>The key that \<open>getSafeKey\<close> tries at an index.\<close>

definition candidateKey :: "string \<Rightarrow> nat \<Rightarrow> string" where
  "candidateKey key index = (if index = 0 then key else key @ ''-'' @ showNat index)"

text \<open>Decimal numerals can be read back, and hold no dash: the candidate keys of one
  keyword are pairwise different, which is why the search of \<open>getSafeKey\<close> ends.\<close>

lemma digit_set: "d < 10 \<Longrightarrow> d \<in> {0,1,2,3,4,5,6,7,8,9::nat}" by auto

definition digitVal :: "char \<Rightarrow> nat" where
  "digitVal c = of_char c - 48"

lemma digitVal_digitChar: "d < 10 \<Longrightarrow> digitVal (digitChar d) = d"
  using digit_set [of d] by (auto simp: digitChar_def digitVal_def)

lemma digitChar_not_dash: "d < 10 \<Longrightarrow> digitChar d \<noteq> CHR ''-''"
  using digit_set [of d] by (auto simp: digitChar_def)

definition readNat :: "string \<Rightarrow> nat" where
  "readNat s = foldl (\<lambda>a c. 10 * a + digitVal c) 0 s"

lemma readNat_showNat: "readNat (showNat n) = n"
  unfolding showNat_def
proof (induction "10::nat" n rule: toStringRadix.induct)
  case (1 n)
  show ?case
  proof (cases "n < 10")
    case True
    then show ?thesis by (subst toStringRadix.simps) (simp add: readNat_def digitVal_digitChar)
  next
    case False
    then have "readNat (toStringRadix 10 (n div 10)) = n div 10" using 1 by simp
    then show ?thesis using False
      by (subst toStringRadix.simps) (simp add: readNat_def digitVal_digitChar)
  qed
qed

lemma showNat_inj: "showNat i = showNat j \<Longrightarrow> i = j"
  by (metis readNat_showNat)

lemma showNat_no_dash: "CHR ''-'' \<notin> set (showNat n)"
  unfolding showNat_def
proof (induction "10::nat" n rule: toStringRadix.induct)
  case (1 n)
  show ?case
  proof (cases "n < 10")
    case True
    then show ?thesis using digitChar_not_dash [of n] by (subst toStringRadix.simps) auto
  next
    case False
    then have "CHR ''-'' \<notin> set (toStringRadix 10 (n div 10))" using 1 by simp
    then show ?thesis using False digitChar_not_dash [of "n mod 10"]
      by (subst toStringRadix.simps) auto
  qed
qed

lemma candidateKey_inj: "candidateKey key i = candidateKey key j \<Longrightarrow> i = j"
  by (auto simp: candidateKey_def dest: showNat_inj split: if_splits)

lemma filter_shrink:
  "x \<in> set xs \<Longrightarrow> P x \<Longrightarrow> \<not> Q x \<Longrightarrow> (\<And>y. Q y \<Longrightarrow> P y)
   \<Longrightarrow> length (filter Q xs) < length (filter P xs)"
proof (induction xs)
  case Nil
  then show ?case by simp
next
  case (Cons a xs)
  have le: "length (filter Q xs) \<le> length (filter P xs)"
    using Cons.prems(4) by (induction xs) auto
  show ?case
  proof (cases "x = a")
    case True
    then show ?thesis using Cons.prems le by simp
  next
    case False
    then have "length (filter Q xs) < length (filter P xs)"
      using Cons by simp
    then show ?thesis using Cons.prems(4) by auto
  qed
qed

text \<open>The loop of \<open>getSafeKey\<close>, from an index on.\<close>

function getSafeKeyFrom :: "'v object \<Rightarrow> string \<Rightarrow> nat \<Rightarrow> string" where
  "getSafeKeyFrom object key index =
     (if has object (candidateKey key index) then getSafeKeyFrom object key (index + 1)
      else key @ ''-'' @ showNat index)"
  by pat_completeness auto
termination
proof (relation "measure (\<lambda>(object, key, index).
         length (filter (\<lambda>k. \<exists>j\<ge>index. k = candidateKey key j) (map fst object)))")
  show "wf (measure (\<lambda>(object :: 'v object, key, index).
         length (filter (\<lambda>k. \<exists>j\<ge>index. k = candidateKey key j) (map fst object))))"
    by simp
next
  fix object :: "'v object" and key index
  assume h: "has object (candidateKey key index)"
  have "length (filter (\<lambda>k. \<exists>j\<ge>index + 1. k = candidateKey key j) (map fst object))
      < length (filter (\<lambda>k. \<exists>j\<ge>index. k = candidateKey key j) (map fst object))"
  proof (rule filter_shrink [where x = "candidateKey key index"])
    show "candidateKey key index \<in> set (map fst object)" using h by (simp add: has_def)
    show "\<exists>j\<ge>index. candidateKey key index = candidateKey key j" by blast
    show "\<not> (\<exists>j\<ge>index + 1. candidateKey key index = candidateKey key j)"
      using candidateKey_inj by fastforce
    show "\<And>y. \<exists>j\<ge>index + 1. y = candidateKey key j \<Longrightarrow> \<exists>j\<ge>index. y = candidateKey key j"
      by (metis add_leD1)
  qed
  then show "((object, key, index + 1), object, key, index)
       \<in> measure (\<lambda>(object, key, index).
         length (filter (\<lambda>k. \<exists>j\<ge>index. k = candidateKey key j) (map fst object)))"
    by simp
qed

declare getSafeKeyFrom.simps [simp del]

definition getSafeKey :: "'v object \<Rightarrow> string \<Rightarrow> string" where
  "getSafeKey object key = getSafeKeyFrom object key 1"

text \<open>The statement \<open>dataset[getSafeKey(dataset, tag.keyword)] = tag\<close> of the dataset
  reader, and a run of such insertions.\<close>

definition insertTag :: "Dataset \<Rightarrow> tag \<Rightarrow> Dataset" where
  "insertTag dataset' tag = objSet dataset' (getSafeKey dataset' (t_keyword tag)) tag"

definition insertAll :: "Dataset \<Rightarrow> tag list \<Rightarrow> Dataset" where
  "insertAll dataset' tags = foldl insertTag dataset' tags"

section \<open>The mode probe of the dataset reader\<close>

text \<open>A stop predicate reads the group, the VR (or \<open>null\<close>) and the length. The
  probe hands it the two VR bytes as a text (the source decodes them as UTF-8, the same
  text for bytes below 0x80; the two predicates of the reader read the group alone).\<close>

type_synonym StopWhenFunction = "nat \<Rightarrow> string option \<Rightarrow> nat \<Rightarrow> bool"

definition isFunction :: "StopWhenFunction option \<Rightarrow> bool" where
  "isFunction f = (f \<noteq> None)"

definition isImplicitVr ::
  "byte list \<Rightarrow> nat \<Rightarrow> bool \<Rightarrow> bool \<Rightarrow> bool \<Rightarrow> StopWhenFunction option \<Rightarrow> error + bool" where
  "isImplicitVr bytes cursor isImplicitVRAssumed isLittleEndian isSequence stopWhen =
     (if isSequence \<and> isImplicitVRAssumed then Inr True
      else
        let data = getArrayRange bytes cursor 6;
            (tagBytes, rawVR) = splitArray data 4
        in if length rawVR < 2 then Inr isImplicitVRAssumed
           else
             let foundImplicit =
                   (\<not> (inRange (unat (rawVR ! 0)) 0x40 0x5b \<and> inRange (unat (rawVR ! 1)) 0x40 0x5b))
             in if foundImplicit \<noteq> isImplicitVRAssumed then
                  (case Bufferpack_unpack \<lparr>littleEndian = isLittleEndian, tokens = [H, H]\<rparr> tagBytes of
                     None \<Rightarrow> Inl TypeError
                   | Some (UNum tag0 # _) \<Rightarrow>
                       let vr = arrayToText rawVR
                       in if isFunction stopWhen \<and> (the stopWhen) tag0 (Some vr) 0 then Inr foundImplicit
                          else if foundImplicit \<and> isSequence then Inr True
                          else Inr foundImplicit
                   | Some _ \<Rightarrow> Inl Unmodelled)
                else Inr foundImplicit)"

section \<open>The dataset reader\<close>

text \<open>The state of the loop of \<open>readDataset\<close>: the dataset, \<open>cursorPositionChange\<close>
  and the log. One run of the loop body either breaks or goes on.\<close>

type_synonym reader_state = "Dataset \<times> nat \<times> log_entry list"

datatype 'a flow = Break 'a | Continue 'a

definition readDatasetBody ::
  "env \<Rightarrow> byte list \<Rightarrow> pattern \<Rightarrow> bool \<Rightarrow> bool \<Rightarrow> StopWhenFunction option
     \<Rightarrow> reader_state \<Rightarrow> error + reader_state flow" where
  "readDatasetBody E data elementPattern isImplicitVR isLittleEndian stopWhen st =
     (case st of (dataset, cursorPositionChange, logged) \<Rightarrow>
      let tagLength = 8;
          tagData = getArrayRange data cursorPositionChange tagLength
      in if length tagData \<noteq> 8 then Inr (Break st)
         else
           case unpack data tagData elementPattern isImplicitVR isLittleEndian
                  cursorPositionChange of
             Inl e \<Rightarrow> Inl e
           | Inr (group', elem, VR, length', cursorChange) \<Rightarrow>
               if isFunction stopWhen \<and> (the stopWhen) group' VR length' then Inr (Break st)
               else
                 let cursorPositionChange1 = cursorPositionChange + cursorChange
                 in if length' \<noteq> 0xFFFFFFFF then
                      (if length' > 0 then
                         let value = getArrayRange data cursorPositionChange1 length';
                             cursorPositionChange2 = cursorPositionChange1 + length'
                         in if VR \<noteq> Some ''NONE'' then
                              (case getTagInfo E value length' group' elem VR of
                                 Inl e \<Rightarrow> Inl e
                               | Inr tagInfo \<Rightarrow>
                                   (case convertValue E
                                           (if truthy VR then the VR else i_VR tagInfo)
                                           tagInfo isLittleEndian of
                                      Inl e \<Rightarrow> Inl e
                                    | Inr converted \<Rightarrow>
                                        (case createTag E group' elem
                                                \<lparr>v_VR = VR, v_length = length',
                                                 v_rawValue = value, v_value = converted\<rparr> of
                                           Inl e \<Rightarrow> Inl e
                                         | Inr tag \<Rightarrow>
                                             Inr (Continue
                                               (insertTag dataset tag,
                                                cursorPositionChange2, logged)))))
                            else Inr (Continue (dataset, cursorPositionChange2, logged))
                       else Inr (Continue (dataset, cursorPositionChange1, logged)))
                    else
                      let newVR = (if VR = Some ''UN'' then Some ''SQ'' else VR);
                          log1 = (if newVR = None then logged @ [UnhandledNullVR] else logged);
                          log2 = (if newVR = Some ''SQ'' then log1 @ [UnhandledSQ]
                                  else log1 @ [UnhandledUndefinedLength])
                      in Inr (Continue (dataset, cursorPositionChange1, log2)))"

text \<open>Every run of the body that goes on moves the cursor by a whole header, inside the
  data: the loop ends.\<close>

lemma unpack_headerSize:
  "unpack data tagData pat iv le c = Inr (g, e, vr, len, hs) \<Longrightarrow> hs = 8 \<or> hs = 12"
  by (auto simp: unpack_def Let_def split: option.splits list.splits unpacked.splits if_splits char.splits)

lemma readDatasetBody_advances:
  assumes "readDatasetBody E data pat iv le sw (ds, c, lg) = Inr (Continue (ds', c', lg'))"
  shows "c + 8 \<le> c' \<and> c + 8 \<le> length data"
  using assms
  by (auto simp: readDatasetBody_def Let_def getArrayRange_def 
      split: sum.splits prod.splits if_splits dest!: unpack_headerSize)

function readDatasetLoop ::
  "env \<Rightarrow> byte list \<Rightarrow> pattern \<Rightarrow> bool \<Rightarrow> bool \<Rightarrow> StopWhenFunction option
     \<Rightarrow> reader_state \<Rightarrow> error + reader_state" where
  "readDatasetLoop E data elementPattern isImplicitVR isLittleEndian stopWhen st =
     (case readDatasetBody E data elementPattern isImplicitVR isLittleEndian stopWhen st of
        Inl e \<Rightarrow> Inl e
      | Inr (Break st') \<Rightarrow> Inr st'
      | Inr (Continue st') \<Rightarrow>
          readDatasetLoop E data elementPattern isImplicitVR isLittleEndian stopWhen st')"
  by pat_completeness auto
termination
proof (relation "measure (\<lambda>(E, data, pat, iv, le, sw, (ds, c, lg)). length data - c)")
  show "wf (measure (\<lambda>(E :: env, data :: byte list, pat :: pattern, iv :: bool, le :: bool,
              sw :: StopWhenFunction option, (ds :: Dataset, c :: nat, lg :: log_entry list)).
              length data - c))"
    by simp
next
  fix E data elementPattern isImplicitVR isLittleEndian stopWhen and st :: reader_state
    and x2 st'
  assume b: "readDatasetBody E data elementPattern isImplicitVR isLittleEndian stopWhen st = Inr x2"
    and c: "x2 = Continue st'"
  obtain ds c0 lg where st: "st = (ds, c0, lg)" by (cases st)
  obtain ds' c' lg' where st': "st' = (ds', c', lg')" by (cases st')
  have "c0 + 8 \<le> c' \<and> c0 + 8 \<le> length data"
    using readDatasetBody_advances b c st st' by blast
  then show "((E, data, elementPattern, isImplicitVR, isLittleEndian, stopWhen, st'),
              E, data, elementPattern, isImplicitVR, isLittleEndian, stopWhen, st)
             \<in> measure (\<lambda>(E, data, pat, iv, le, sw, (ds, c, lg)). length data - c)"
    using st st' by auto
qed

declare readDatasetLoop.simps [simp del]

record dataset_result = cursor_result +
  dataset :: Dataset

definition readDataset ::
  "env \<Rightarrow> byte list \<Rightarrow> nat \<Rightarrow> bool \<Rightarrow> bool \<Rightarrow> StopWhenFunction option
     \<Rightarrow> error + (dataset_result \<times> log_entry list)" where
  "readDataset E bytes cursor isImplicitVRAssumed isLittleEndian stopWhen =
     (let data = snd (splitArray bytes cursor)
      in case isImplicitVr bytes cursor isImplicitVRAssumed isLittleEndian True stopWhen of
           Inl e \<Rightarrow> Inl e
         | Inr isImplicitVR \<Rightarrow>
             let elementPattern = getEndianPattern isLittleEndian isImplicitVR
             in case readDatasetLoop E data elementPattern isImplicitVR isLittleEndian stopWhen
                       ([], 0, []) of
                  Inl e \<Rightarrow> Inl e
                | Inr (dataset', cursorPositionChange, logged) \<Rightarrow>
                    Inr (\<lparr>newCursorPosition = cursor + cursorPositionChange,
                          dataset = dataset'\<rparr>, logged))"

definition notGroup0000 :: StopWhenFunction where
  "notGroup0000 group' VR length' = (group' \<noteq> 0)"

definition notGroup0002 :: StopWhenFunction where
  "notGroup0002 group' VR length' = (group' \<noteq> 2)"

definition readFileMetaInfo ::
  "env \<Rightarrow> byte list \<Rightarrow> nat \<Rightarrow> error + (dataset_result \<times> log_entry list)" where
  "readFileMetaInfo E bytes cursor = readDataset E bytes cursor False True (Some notGroup0002)"

definition readCommandSetElements ::
  "env \<Rightarrow> byte list \<Rightarrow> nat \<Rightarrow> error + (dataset_result \<times> log_entry list)" where
  "readCommandSetElements E bytes cursor =
     readDataset E bytes cursor False True (Some notGroup0000)"

section \<open>The mode of the main dataset\<close>

text \<open>
  Modelled from the spec: \<open>KnownUIDs\<close> (the constants module is not among the sources),
  the transfer syntaxes of the spec's mode table.
\<close>

definition ImplicitVRLittleEndian :: string where
  "ImplicitVRLittleEndian = ''1.2.840.10008.1.2''"

definition ExplicitVRLittleEndian :: string where
  "ExplicitVRLittleEndian = ''1.2.840.10008.1.2.1''"

definition ExplicitVRBigEndian :: string where
  "ExplicitVRBigEndian = ''1.2.840.10008.1.2.2''"

definition DeflatedExplicitVRLittleEndian :: string where
  "DeflatedExplicitVRLittleEndian = ''1.2.840.10008.1.2.1.99''"

record mode =
  isImplicitVR :: bool
  isLittleEndian :: bool

definition getReturnObject :: "bool option \<Rightarrow> bool option \<Rightarrow> mode" where
  "getReturnObject isImplicitVR' isLittleEndian' =
     \<lparr>isImplicitVR = (case isImplicitVR' of None \<Rightarrow> True | Some b \<Rightarrow> b),
      isLittleEndian = (case isLittleEndian' of None \<Rightarrow> True | Some b \<Rightarrow> b)\<rparr>"

definition readOrGuessIsImplicitVrAndIsLittleEndian ::
  "env \<Rightarrow> byte list \<Rightarrow> nat \<Rightarrow> tag option \<Rightarrow> error + (mode \<times> log_entry list)" where
  "readOrGuessIsImplicitVrAndIsLittleEndian E bytes cursor transferSyntax =
     (let peek = getArrayRange bytes cursor 1
      in if length peek = 0 then Inr (getReturnObject None None, [])
         else case transferSyntax of
           None \<Rightarrow>
             (let data = getArrayRange bytes cursor 6
              in case Bufferpack_unpack \<lparr>littleEndian = True, tokens = [H, H, S 2]\<rparr> data of
                   None \<Rightarrow> Inl TypeError
                 | Some (UNum group' # UNum something # UStr VR # _) \<Rightarrow>
                     if converters E VR then
                       (if group' \<ge> 1024 then Inr (getReturnObject (Some False) (Some False), [])
                        else Inr (getReturnObject (Some False) (Some True), []))
                     else Inr (getReturnObject None None, [])
                 | Some _ \<Rightarrow> Inl Unmodelled)
         | Some ts \<Rightarrow>
             if t_value ts = JStr ImplicitVRLittleEndian then Inr (getReturnObject None None, [])
             else if t_value ts = JStr ExplicitVRLittleEndian
               then Inr (getReturnObject (Some False) (Some True), [])
             else if t_value ts = JStr ExplicitVRBigEndian
               then Inr (getReturnObject (Some False) (Some False), [])
             else if t_value ts = JStr DeflatedExplicitVRLittleEndian
               then Inr (getReturnObject None None, [DeflateNotImplemented])
             else Inr (getReturnObject (Some False) (Some True), []))"

section \<open>The file reader\<close>

text \<open>The object spread \<open>{...a, ...b}\<close>: the properties of \<open>b\<close> assigned onto \<open>a\<close>, in
  order.\<close>

definition spread :: "'v object \<Rightarrow> 'v object \<Rightarrow> 'v object" where
  "spread a b = foldl (\<lambda>object (k, v). objSet object k v) a b"

record FullDataset = mode +
  entries :: Dataset

text \<open>\<open>readFile\<close> from the bytes of the file (the source awaits them from the
  \<open>File\<close>); a throw rejects the promise it returns. \<open>readMainDataset\<close> is the part
  of its body after the read of the File Meta Information.\<close>

definition readMainDataset ::
  "env \<Rightarrow> byte list \<Rightarrow> Dataset \<Rightarrow> nat \<Rightarrow> error + (FullDataset \<times> log_entry list)" where
  "readMainDataset E bytes fileMetaInfo cursorAfterFileMeta =
     andThen (readCommandSetElements E bytes cursorAfterFileMeta) (\<lambda>(command, log2).
     let commandSetElements = dataset command;
         datasetStart = newCursorPosition command;
         transferSyntax = objGet fileMetaInfo ''00020010''
     in
     andThen (readOrGuessIsImplicitVrAndIsLittleEndian E bytes datasetStart transferSyntax)
       (\<lambda>(m, log3).
     andThen (readDataset E bytes datasetStart (isImplicitVR m) (isLittleEndian m) None)
       (\<lambda>(main, log4).
     Inr (\<lparr>isImplicitVR = isImplicitVR m, isLittleEndian = isLittleEndian m,
           entries = spread (spread (dataset main) fileMetaInfo) commandSetElements\<rparr>,
          log2 @ log3 @ log4))))"

definition readFile :: "env \<Rightarrow> byte list \<Rightarrow> error + (FullDataset \<times> log_entry list)" where
  "readFile E bytes =
     (case readPreamble bytes of (pre, log0) \<Rightarrow>
      let cursorAfterPreamble = newCursorPosition pre
      in andThen (readFileMetaInfo E bytes cursorAfterPreamble) (\<lambda>(meta, log1).
         andThen (readMainDataset E bytes (dataset meta) (newCursorPosition meta))
           (\<lambda>(full, logged). Inr (full, log0 @ log1 @ logged))))"

section \<open>Tag lookup\<close>

text \<open>Lower and upper case on the code units 0 to 255; \<open>\s\<close> of a regular expression.\<close>

definition toLowerChar :: "char \<Rightarrow> char" where
  "toLowerChar c =
     (let n = charCodeAt c
      in if (65 \<le> n \<and> n \<le> 90) \<or> (192 \<le> n \<and> n \<le> 222 \<and> n \<noteq> 215) then char_of (n + 32)
         else c)"

definition toLower :: "string \<Rightarrow> string" where
  "toLower s = map toLowerChar s"

text \<open>\<open>toUpper\<close> is applied to hex numerals only: ASCII.\<close>

definition toUpperChar :: "char \<Rightarrow> char" where
  "toUpperChar c =
     (let n = charCodeAt c in if 97 \<le> n \<and> n \<le> 122 then char_of (n - 32) else c)"

definition toUpper :: "string \<Rightarrow> string" where
  "toUpper s = map toUpperChar s"

definition isSpace :: "char \<Rightarrow> bool" where
  "isSpace c = (charCodeAt c \<in> set [9, 10, 11, 12, 13, 32, 160])"

text \<open>A tag identifier: a text, or an array of numbers and texts.\<close>

datatype rep_item = RNum nat | RStr string

datatype representation = RepString string | RepArray "rep_item list"

definition toLowerItem :: "rep_item \<Rightarrow> string" where
  "toLowerItem i = (case i of RNum n \<Rightarrow> showNat n | RStr s \<Rightarrow> toLower s)"

definition getMatchedTag :: "representation \<Rightarrow> tag \<Rightarrow> bool" where
  "getMatchedTag representation' tag =
     (case representation' of
        RepArray items \<Rightarrow>
          (case items of
             RNum _ # _ \<Rightarrow>
               [RNum (r_group (t_representations tag)), RNum (r_element (t_representations tag))]
                 = items
           | RStr _ # _ \<Rightarrow>
               map toLower (r_tuple (t_representations tag)) = map toLowerItem items
           | [] \<Rightarrow> False)
      | RepString s \<Rightarrow>
          if toLower (t_name tag) = toLower s \<or> toLower (t_keyword tag) = toLower s then True
          else
            let transformedRepresentation =
                  filter (\<lambda>c. \<not> (c = CHR ''('' \<or> c = CHR '','' \<or> isSpace c)) (toLower s)
            in toLower (t_representation tag) = transformedRepresentation)"

definition getTagValue :: "Dataset \<Rightarrow> representation \<Rightarrow> tag option \<times> log_entry list" where
  "getTagValue dataset' representation' =
     (if (case representation' of RepArray items \<Rightarrow> length items \<noteq> 2 | RepString _ \<Rightarrow> False)
      then (None, [WrongTagIdentifier])
      else (find (\<lambda>tag. getMatchedTag representation' tag) (map snd dataset'), []))"

text \<open>The reduction of \<open>getTagsGroup\<close>: \<open>tag.keyword[0]\<close> of an empty keyword is
  \<open>undefined\<close>, and its \<open>toLowerCase\<close> a TypeError.\<close>

fun getTagsGroupReduce :: "Dataset \<Rightarrow> tag list \<Rightarrow> error + Dataset" where
  "getTagsGroupReduce acc [] = Inr acc"
| "getTagsGroupReduce acc (tag # tags) =
     (case t_keyword tag of
        [] \<Rightarrow> Inl TypeError
      | c # cs \<Rightarrow> getTagsGroupReduce (objSet acc (toLowerChar c # cs) tag) tags)"

definition getTagsGroup :: "Dataset \<Rightarrow> string \<Rightarrow> error + Dataset" where
  "getTagsGroup dataset' group' =
     getTagsGroupReduce []
       (filter (\<lambda>tag. r_hexGroup (t_representations tag) = group') (map snd dataset'))"

section \<open>The pixel pipeline\<close>

text \<open>lodash's \<open>chunk\<close>: no chunk at all for a size below 1.\<close>

function chunk :: "nat \<Rightarrow> 'a list \<Rightarrow> 'a list list" where
  "chunk size' xs =
     (if size' < 1 \<or> xs = [] then [] else take size' xs # chunk size' (drop size' xs))"
  by pat_completeness auto
termination
  by (relation "measure (\<lambda>(size', xs). length xs)") auto

declare chunk.simps [simp del]

definition littleEndianToBigEndian :: "string \<Rightarrow> string" where
  "littleEndianToBigEndian hex =
     (if length hex > 2 then concat (rev (chunk 2 hex)) else hex)"

text \<open>\<open>parseInt(text, radix)\<close> on a text of digits: the longest prefix of digits of the
  radix, \<open>NaN\<close> (here \<open>None\<close>) when there is none. The texts parsed here are hex and
  binary numerals, with no blank, sign or \<open>0x\<close> in front.\<close>

definition digitValue :: "char \<Rightarrow> nat option" where
  "digitValue c =
     (let n = charCodeAt c
      in if 48 \<le> n \<and> n \<le> 57 then Some (n - 48)
         else if 97 \<le> n \<and> n \<le> 122 then Some (n - 87)
         else if 65 \<le> n \<and> n \<le> 90 then Some (n - 55)
         else None)"

definition isDigitOf :: "nat \<Rightarrow> char \<Rightarrow> bool" where
  "isDigitOf radix c = (case digitValue c of None \<Rightarrow> False | Some d \<Rightarrow> d < radix)"

definition parseIntRadix :: "nat \<Rightarrow> string \<Rightarrow> nat option" where
  "parseIntRadix radix s =
     (let digits = takeWhile (isDigitOf radix) s
      in if digits = [] then None
         else Some (foldl (\<lambda>a c. radix * a + the (digitValue c)) 0 digits))"

text \<open>The body of the map of \<open>pixelDataToSignedInt\<close>, on one hex text.\<close>

definition pixelToSignedInt :: "string \<Rightarrow> int option" where
  "pixelToSignedInt num =
     (case parseIntRadix 16 num of
        None \<Rightarrow> None
      | Some n \<Rightarrow>
          let bits = toStringRadix 2 n
          in if take 1 bits = ''1'' \<and> length bits = 16 then
               (case parseIntRadix 2
                       (map (\<lambda>b. if b = CHR ''0'' then CHR ''1'' else CHR ''0'') bits) of
                  None \<Rightarrow> None
                | Some numberAfterXor \<Rightarrow>
                    let value = - (int numberAfterXor + 1)
                    in Some (if value = 0 then - 32768 else value))
             else map_option int (parseIntRadix 2 bits))"

definition pixelDataToSignedInt :: "string list \<Rightarrow> int option list" where
  "pixelDataToSignedInt data = map pixelToSignedInt data"

definition numberToHex :: "byte \<Rightarrow> string" where
  "numberToHex i = takeRight (''0'' @ toStringRadix 16 (unat i)) 2"

text \<open>\<open>tag && tag.value ? tag.value : fallback\<close> on a tag whose value is a number.\<close>

definition valueOr :: "tag option \<Rightarrow> rat \<Rightarrow> error + rat" where
  "valueOr t fallback =
     (case t of
        None \<Rightarrow> Inr fallback
      | Some tag \<Rightarrow>
          (case t_value tag of
             JNum v \<Rightarrow> Inr (if v \<noteq> 0 then v else fallback)
           | _ \<Rightarrow> Inl Unmodelled))"

definition adjustToWindow :: "rat list \<Rightarrow> tag option \<Rightarrow> tag option \<Rightarrow> error + int list" where
  "adjustToWindow pixelData windowCenter windowWidth =
     (case valueOr windowCenter 610 of
        Inl e \<Rightarrow> Inl e
      | Inr safeWindowCenter \<Rightarrow>
     (case valueOr windowWidth 1221 of
        Inl e \<Rightarrow> Inl e
      | Inr safeWindowWidth \<Rightarrow>
          let minPixelValue = safeWindowCenter - safeWindowWidth / 2;
              maxPixelValue = safeWindowCenter + safeWindowWidth / 2;
              scalingFactor = 255 / (\<bar>minPixelValue\<bar> + \<bar>maxPixelValue\<bar>)
          in Inr (map (\<lambda>value.
                    let valueInRange = min (max value minPixelValue) maxPixelValue;
                        positiveValue =
                          (if minPixelValue < 0 then valueInRange + \<bar>minPixelValue\<bar>
                           else valueInRange)
                    in \<lfloor>positiveValue * scalingFactor\<rfloor>) pixelData)))"

text \<open>\<open>x.toString(16)\<close> of an integer, and \<open>padStart\<close>.\<close>

definition toStringInt :: "nat \<Rightarrow> int \<Rightarrow> string" where
  "toStringInt radix x =
     (if x < 0 then ''-'' @ toStringRadix radix (nat (- x)) else toStringRadix radix (nat x))"

definition padStart :: "string \<Rightarrow> nat \<Rightarrow> char \<Rightarrow> string" where
  "padStart s n c = replicate (n - length s) c @ s"

text \<open>The value of a tag where the pipeline computes with it.\<close>

definition numberOf :: "tag \<Rightarrow> error + rat" where
  "numberOf tag = (case t_value tag of JNum v \<Rightarrow> Inr v | _ \<Rightarrow> Inl Unmodelled)"

definition allNumbers :: "int option list \<Rightarrow> error + int list" where
  "allNumbers xs = (if None \<in> set xs then Inl Unmodelled else Inr (map the xs))"

text \<open>The tags that \<open>getPixelData\<close> destructures from the group 0028, each a tag or
  \<open>undefined\<close>.\<close>

record pixel_tags =
  bitsAllocated :: "tag option"
  bitsStored :: "tag option"
  highBit :: "tag option"
  photometricInterpretation :: "tag option"
  pixelRepresentation :: "tag option"
  rescaleIntercept :: "tag option"
  rescaleSlope :: "tag option"
  windowCenter :: "tag option"
  windowWidth :: "tag option"

definition destructure :: "Dataset \<Rightarrow> pixel_tags" where
  "destructure group0028 =
     \<lparr>bitsAllocated = objGet group0028 ''bitsAllocated'',
      bitsStored = objGet group0028 ''bitsStored'',
      highBit = objGet group0028 ''highBit'',
      photometricInterpretation = objGet group0028 ''photometricInterpretation'',
      pixelRepresentation = objGet group0028 ''pixelRepresentation'',
      rescaleIntercept = objGet group0028 ''rescaleIntercept'',
      rescaleSlope = objGet group0028 ''rescaleSlope'',
      windowCenter = objGet group0028 ''windowCenter'',
      windowWidth = objGet group0028 ''windowWidth''\<rparr>"

text \<open>The body of \<open>getPixelData\<close> once the Pixel Data element is found.\<close>

definition pixelPipeline :: "pixel_tags \<Rightarrow> tag \<Rightarrow> error + string list" where
  "pixelPipeline p pixelData =
     andThen (defined (bitsAllocated p)) (\<lambda>ba.
     andThen (numberOf ba) (\<lambda>bitsAllocatedValue.
     let hexAllocated = \<lceil>bitsAllocatedValue / 8\<rceil> * 2;
         pixelDataHexString =
           chunk (nat hexAllocated) (concat (map numberToHex (t_rawValue pixelData)))
     in
     andThen (defined (highBit p)) (\<lambda>hb.
     andThen (numberOf hb) (\<lambda>highBitValue.
     andThen (defined (bitsStored p)) (\<lambda>bs.
     andThen (numberOf bs) (\<lambda>bitsStoredValue.
     let pixelDataBigEndian =
           (if highBitValue + 1 = bitsStoredValue
            then map littleEndianToBigEndian pixelDataHexString
            else pixelDataHexString)
     in
     andThen (if rescaleSlope p = None then Inr 1 else numberOf (the (rescaleSlope p)))
       (\<lambda>rescaleSlopeValue.
     andThen (if rescaleIntercept p = None then Inr 0 else numberOf (the (rescaleIntercept p)))
       (\<lambda>rescaleInterceptValue.
     andThen (defined (pixelRepresentation p)) (\<lambda>pr.
     andThen (allNumbers
               (if t_value pr = JNum 0
                then map (\<lambda>hex. map_option int (parseIntRadix 16 hex)) pixelDataBigEndian
                else pixelDataToSignedInt pixelDataBigEndian)) (\<lambda>numbers.
     let pixelDataSignedScaled =
           map (\<lambda>num. rescaleSlopeValue * of_int num + rescaleInterceptValue) numbers
     in
     andThen (adjustToWindow pixelDataSignedScaled (windowCenter p) (windowWidth p))
       (\<lambda>pixelDataWindowAdjusted.
     let pixelDataInterpreted =
           (if photometricInterpretation p \<noteq> None
               \<and> t_value (the (photometricInterpretation p)) = JStr ''MONOCHROME1''
            then map (\<lambda>i. 255 - i) pixelDataWindowAdjusted
            else pixelDataWindowAdjusted);
         hexStringArrayPixelData =
           map (\<lambda>x. let value = padStart (toUpper (toStringInt 16 x)) 2 CHR ''0''
                    in ''#'' @ concat (replicate 3 value)) pixelDataInterpreted
     in Inr hexStringArrayPixelData)))))))))))"

definition getPixelData :: "Dataset \<Rightarrow> error + string list option" where
  "getPixelData dataset' =
     andThen (getTagsGroup dataset' ''0028'') (\<lambda>group0028.
     case fst (getTagValue dataset' (RepString ''Pixel Data'')) of
       None \<Rightarrow> Inr None
     | Some pixelData \<Rightarrow>
         andThen (pixelPipeline (destructure group0028) pixelData)
           (\<lambda>hexStringArrayPixelData. Inr (Some hexStringArrayPixelData)))"

section \<open>Predicates of the proofs\<close>

text \<open>A numbered key is the keyword, a dash and a decimal numeral. A dataset is numbered
  when the keys of the elements of each keyword are numbered from 1 in the order of
  insertion: the invariant of a dataset built by insertions.\<close>

definition numberedKey :: "string \<Rightarrow> nat \<Rightarrow> string" where
  "numberedKey key index = key @ ''-'' @ showNat index"

definition occurrences :: "string \<Rightarrow> Dataset \<Rightarrow> nat" where
  "occurrences k ds = length (filter (\<lambda>(key, t). t_keyword t = k) ds)"

definition numbered :: "Dataset \<Rightarrow> bool" where
  "numbered ds =
     (\<forall>k. map fst (filter (\<lambda>(key, t). t_keyword t = k) ds)
          = map (numberedKey k) [1..<Suc (occurrences k ds)])"



definition extends :: "reader_state \<Rightarrow> reader_state \<Rightarrow> bool" where
  "extends st st' =
     (\<exists>ext more. fst st' = fst st @ ext \<and> snd (snd st') = snd (snd st) @ more)"






section \<open>Example inputs\<close>

text \<open>
  Modelled from the spec: the environment of the examples. The constants and the converter
  module are not among the sources; the spec gives the entry of (0010,0010), the VR and
  the keyword of \<open>GroupLengthEntry\<close> and the converter of the text VRs (ASCII with the
  trailing NULs and spaces trimmed). The other two entries are the standard's, and every
  other value is handed on as bytes.
\<close>

definition trimEnd :: "string \<Rightarrow> string" where
  "trimEnd s = rev (dropWhile (\<lambda>c. c = CHR 0x00 \<or> c = CHR '' '') (rev s))"

definition testDictionary :: "string \<Rightarrow> dict_entry option" where
  "testDictionary k =
     (if k = ''00020010'' then
        Some \<lparr>e_VR = ''UI'', e_VM = ''1'', e_Name = ''Transfer Syntax UID'',
              e_Retired = [], e_Keyword = ''TransferSyntaxUID''\<rparr>
      else if k = ''00100010'' then
        Some \<lparr>e_VR = ''PN'', e_VM = ''1'', e_Name = ''Patient's Name'',
              e_Retired = [], e_Keyword = ''PatientName''\<rparr>
      else if k = ''00100020'' then
        Some \<lparr>e_VR = ''LO'', e_VM = ''1'', e_Name = ''Patient ID'',
              e_Retired = [], e_Keyword = ''PatientID''\<rparr>
      else None)"

definition testEnv :: env where
  "testEnv =
     \<lparr>DicomDictionary = testDictionary,
      GroupLengthEntry = \<lparr>e_VR = ''UL'', e_VM = ''1'', e_Name = ''Group Length'',
                           e_Retired = [], e_Keyword = ''GroupLength''\<rparr>,
      convertValue = (\<lambda>VR info le.
         if VR \<in> set [''UI'', ''PN'', ''LO'', ''IS'', ''CS'']
         then Inr (JStr (trimEnd (arrayToText (i_rawValue info))))
         else Inr (JBytes (i_rawValue info))),
      converters = (\<lambda>VR. VR \<in> set [''UI'', ''PN'', ''LO'', ''IS'', ''CS'', ''UL'', ''US'',
                                       ''OB'', ''OW'', ''UN'', ''SQ''])\<rparr>"

definition ascii :: "string \<Rightarrow> byte list" where
  "ascii s = map (\<lambda>c. of_nat (of_char c)) s"

text \<open>A file whose File Meta Information names Explicit VR Big Endian, and whose main
  dataset is one big-endian element (2000,0010) IS of length 2.\<close>

definition bigEndianFile :: "byte list" where
  "bigEndianFile =
     replicate 128 0 @ ascii ''DICM''
     @ [0x02, 0x00, 0x10, 0x00] @ ascii ''UI'' @ [0x14, 0x00]
     @ ascii ''1.2.840.10008.1.2.2'' @ [0x00]
     @ [0x20, 0x00, 0x00, 0x10] @ ascii ''IS'' @ [0x00, 0x02] @ ascii ''1 ''"

text \<open>An explicit little-endian header (0010,0010) whose VR bytes are \<open>UZ\<close>.\<close>

definition headerUZ :: "byte list" where
  "headerUZ = [0x10, 0x00, 0x10, 0x00] @ ascii ''UZ'' @ [0x02, 0x00]"

text \<open>A tag as \<open>createTag\<close> builds it for an entry of the dictionary, for the examples
  of the pixel pipeline.\<close>

definition exampleTag ::
  "nat \<Rightarrow> nat \<Rightarrow> string \<Rightarrow> string \<Rightarrow> string \<Rightarrow> jsval \<Rightarrow> byte list \<Rightarrow> tag" where
  "exampleTag group' element VR name' keyword value raw =
     (let (hexGroup, hexElement) = getHexRepresentation group' element
      in \<lparr>t_VR = VR, t_length = length raw, t_rawValue = raw, t_value = value,
          t_representations =
            \<lparr>r_group = group', r_element = element, r_hexGroup = hexGroup,
             r_hexElement = hexElement, r_tuple = [hexGroup, hexElement],
             r_string = hexGroup @ hexElement, r_name = name'\<rparr>,
          t_representation = hexGroup @ hexElement, t_name = name', t_VM = ''1'',
          t_keyword = keyword, t_retired = []\<rparr>)"

definition pixelTag :: "byte list \<Rightarrow> string \<times> tag" where
  "pixelTag raw =
     (''PixelData-1'',
      exampleTag 0x7fe0 0x0010 ''OW'' ''Pixel Data'' ''PixelData'' (JBytes raw) raw)"

definition numberTag :: "nat \<Rightarrow> string \<Rightarrow> string \<Rightarrow> string \<Rightarrow> rat \<Rightarrow> string \<times> tag" where
  "numberTag element VR name' keyword v =
     (keyword @ ''-1'', exampleTag 0x0028 element VR name' keyword (JNum v) [])"

text \<open>Eight bits per pixel, unsigned, slope 1, intercept 0, MONOCHROME2, and the pixels
  0, 128 and 255; the window is left to the examples.\<close>

definition eightBitDataset :: Dataset where
  "eightBitDataset =
     [numberTag 0x0100 ''US'' ''Bits Allocated'' ''BitsAllocated'' 8,
      numberTag 0x0101 ''US'' ''Bits Stored'' ''BitsStored'' 8,
      numberTag 0x0102 ''US'' ''High Bit'' ''HighBit'' 7,
      numberTag 0x0103 ''US'' ''Pixel Representation'' ''PixelRepresentation'' 0,
      numberTag 0x1053 ''DS'' ''Rescale Slope'' ''RescaleSlope'' 1,
      numberTag 0x1052 ''DS'' ''Rescale Intercept'' ''RescaleIntercept'' 0,
      (''PhotometricInterpretation-1'',
       exampleTag 0x0028 0x0004 ''CS'' ''Photometric Interpretation''
         ''PhotometricInterpretation'' (JStr ''MONOCHROME2'') []),
      pixelTag [0, 128, 255]]"

definition windowCenterTag :: "rat \<Rightarrow> string \<times> tag" where
  "windowCenterTag v = numberTag 0x1050 ''DS'' ''Window Center'' ''WindowCenter'' v"

definition windowWidthTag :: "rat \<Rightarrow> string \<times> tag" where
  "windowWidthTag v = numberTag 0x1051 ''DS'' ''Window Width'' ''WindowWidth'' v"

text \<open>Implicit little-endian buffers for the dataset reader: a header (0010,0010) of
  undefined length, or of length 0, followed by the element (0010,0020) with the value
  \<open>AB\<close>; that element alone; that element with a length field of 4 and only two bytes of
  value; and the group length element (0000,0000) of a command set.\<close>

definition undefinedLengthBuffer :: "byte list" where
  "undefinedLengthBuffer =
     [0x10, 0x00, 0x10, 0x00, 0xFF, 0xFF, 0xFF, 0xFF]
     @ [0x10, 0x00, 0x20, 0x00, 0x02, 0x00, 0x00, 0x00] @ ascii ''AB''"

definition zeroLengthBuffer :: "byte list" where
  "zeroLengthBuffer =
     [0x10, 0x00, 0x10, 0x00, 0x00, 0x00, 0x00, 0x00]
     @ [0x10, 0x00, 0x20, 0x00, 0x02, 0x00, 0x00, 0x00] @ ascii ''AB''"




text \<open>What a read gave: the key, the length field and the size of the raw value of each
  element, the new cursor and the log.\<close>

definition summary ::
  "error + (dataset_result \<times> log_entry list)
     \<Rightarrow> error + ((string \<times> nat \<times> nat) list \<times> nat \<times> log_entry list)" where
  "summary r =
     map_sum id (\<lambda>(d, logged).
        (map (\<lambda>(key, t). (key, t_length t, length (t_rawValue t))) (dataset d),
         newCursorPosition d, logged)) r"

section \<open>The preamble and the start of the File Meta Information\<close>

text \<open>A byte is the code of one character, so the magic text is \<open>DICM\<close> exactly when
  the four bytes are its codes.\<close>

lemma fromCharCode_eq: "fromCharCode b = c \<longleftrightarrow> b = of_nat (of_char c)"
proof
  assume "fromCharCode b = c"
  then have "of_char (char_of (unat b)) = (of_char c :: nat)" by (simp add: fromCharCode_def)
  then have "unat b mod 256 = of_char c" by (simp add: of_char_of)
  moreover have "unat b < 256" using unsigned_less [of b] by simp
  ultimately have "unat b = of_char c" by simp
  then show "b = of_nat (of_char c)" by (metis of_nat_unat ucast_id)
next
  assume "b = of_nat (of_char c)"
  then have "unat b = of_char c mod 256" by (simp add: unat_of_nat)
  then show "fromCharCode b = c" by (simp add: fromCharCode_def)
qed

lemma arrayToText_DICM:
  "arrayToText magic = ''DICM'' \<longleftrightarrow> magic = [0x44, 0x49, 0x43, 0x4D]"
  by (auto simp: arrayToText_def map_eq_Cons_conv fromCharCode_eq)

text \<open>
  C8. \<open>readPreamble\<close> gives the first 128 bytes and the cursor 132 exactly when bytes 128
  to 132 of the input are the ASCII codes of \<open>DICM\<close>; otherwise it logs the error and
  gives an empty preamble and the cursor 0. \<open>readFile\<close> reads the File Meta Information
  from that cursor, so from offset 0 after a mismatch, and goes on with the rest of the
  file.
\<close>

theorem readPreamble_magic:
  "readPreamble bytes =
     (if take 4 (drop 128 bytes) = [0x44, 0x49, 0x43, 0x4D]
      then (\<lparr>newCursorPosition = 132, preamble = take 128 bytes\<rparr>, [])
      else (\<lparr>newCursorPosition = 0, preamble = []\<rparr>,
            [MissingDicomFileMetaInformationHeader]))
   \<and> readFile E bytes =
       andThen
         (readFileMetaInfo E bytes
            (if take 4 (drop 128 bytes) = [0x44, 0x49, 0x43, 0x4D] then 132 else 0))
         (\<lambda>(meta, log1).
            andThen (readMainDataset E bytes (dataset meta) (newCursorPosition meta))
              (\<lambda>(full, logged).
                 Inr (full,
                      (if take 4 (drop 128 bytes) = [0x44, 0x49, 0x43, 0x4D] then []
                       else [MissingDicomFileMetaInformationHeader]) @ log1 @ logged)))"
proof -
  have magic: "drop 128 (take 132 bytes) = take 4 (drop 128 bytes)"
    by (simp add: drop_take)
  have pre: "readPreamble bytes =
     (if take 4 (drop 128 bytes) = [0x44, 0x49, 0x43, 0x4D]
      then (\<lparr>newCursorPosition = 132, preamble = take 128 bytes\<rparr>, [])
      else (\<lparr>newCursorPosition = 0, preamble = []\<rparr>,
            [MissingDicomFileMetaInformationHeader]))"
    by (simp add: readPreamble_def splitArray_def Let_def DICOM_MAGIC_PREFIX_def
        arrayToText_DICM magic min_def)
  show ?thesis
    by (simp add: pre readFile_def Let_def)
qed

section \<open>The keys of a dataset\<close>

text \<open>The numeral of a numbered key holds no dash, so the keyword and the number can be
  read back from the key.\<close>

lemma split_at_first:
  assumes "as @ d # bs = as' @ d # bs'" and "d \<notin> set as" and "d \<notin> set as'"
  shows "as = as' \<and> bs = bs'"
proof -
  have a: "takeWhile (\<lambda>x. x \<noteq> d) (as @ d # bs) = as"
    using assms(2) by (induction as) auto
  have b: "takeWhile (\<lambda>x. x \<noteq> d) (as' @ d # bs') = as'"
    using assms(3) by (induction as') auto
  have "as = as'" using assms(1) a b by metis
  then show ?thesis using assms(1) by simp
qed

lemma split_at_last_dash:
  assumes "xs @ CHR ''-'' # ys = xs' @ CHR ''-'' # ys'"
    and "CHR ''-'' \<notin> set ys" and "CHR ''-'' \<notin> set ys'"
  shows "xs = xs' \<and> ys = ys'"
proof -
  have "rev (xs @ CHR ''-'' # ys) = rev (xs' @ CHR ''-'' # ys')"
    using assms(1) by simp
  then have "rev ys @ CHR ''-'' # rev xs = rev ys' @ CHR ''-'' # rev xs'"
    by simp
  moreover have "CHR ''-'' \<notin> set (rev ys)" "CHR ''-'' \<notin> set (rev ys')"
    using assms by simp_all
  ultimately have "rev ys = rev ys' \<and> rev xs = rev xs'"
    by (rule split_at_first)
  then show ?thesis by simp
qed

lemma numberedKey_inj:
  assumes "numberedKey k i = numberedKey k' j"
  shows "k = k' \<and> i = j"
proof -
  have "k @ CHR ''-'' # showNat i = k' @ CHR ''-'' # showNat j"
    using assms by (simp add: numberedKey_def)
  then have "k = k' \<and> showNat i = showNat j"
    by (rule split_at_last_dash) (rule showNat_no_dash)+
  then show ?thesis using showNat_inj by blast
qed

lemma candidateKey_numbered: "0 < i \<Longrightarrow> candidateKey k i = numberedKey k i"
  by (simp add: candidateKey_def numberedKey_def)

lemma getSafeKeyFrom_first_free:
  assumes "\<And>j. i \<le> j \<Longrightarrow> j < m \<Longrightarrow> has object (candidateKey k j)"
    and "\<not> has object (candidateKey k m)" and "i \<le> m"
  shows "getSafeKeyFrom object k i = k @ ''-'' @ showNat m"
  using assms
proof (induction "m - i" arbitrary: i)
  case 0
  then have "i = m" by simp
  then show ?case using 0 by (subst getSafeKeyFrom.simps) simp
next
  case (Suc d)
  then have "has object (candidateKey k i)" by simp
  moreover have "getSafeKeyFrom object k (i + 1) = k @ ''-'' @ showNat m"
    using Suc by (intro Suc.hyps(1)) auto
  ultimately show ?case by (subst getSafeKeyFrom.simps) simp
qed

text \<open>Insertion keeps a dataset numbered: \<open>getSafeKey\<close> finds the first free number,
  which is the number of elements of the keyword so far plus one.\<close>

lemma numbered_unfold:
  "numbered ds \<Longrightarrow> map fst (filter (\<lambda>(key, t). t_keyword t = k) ds)
     = map (numberedKey k) [1..<Suc (occurrences k ds)]"
  unfolding numbered_def by blast

lemma key_in_filter:
  "(key, t) \<in> set ds \<Longrightarrow>
     key \<in> set (map fst (filter (\<lambda>(key, t'). t_keyword t' = t_keyword t) ds))"
  by (induction ds) auto

lemma numbered_has:
  assumes "numbered ds"
  shows "has ds (numberedKey k j) \<longleftrightarrow> 1 \<le> j \<and> j \<le> occurrences k ds"
proof
  assume "has ds (numberedKey k j)"
  then obtain t where t: "(numberedKey k j, t) \<in> set ds" by (auto simp: has_def)
  let ?k' = "t_keyword t"
  have "numberedKey k j \<in> set (map fst (filter (\<lambda>(key, t'). t_keyword t' = ?k') ds))"
    using t by (rule key_in_filter)
  then have "numberedKey k j \<in> set (map (numberedKey ?k') [1..<Suc (occurrences ?k' ds)])"
    by (simp only: numbered_unfold [OF assms])
  then obtain j' where "numberedKey k j = numberedKey ?k' j'" "1 \<le> j'" "j' \<le> occurrences ?k' ds"
    by (auto simp del: upt_Suc)
  then show "1 \<le> j \<and> j \<le> occurrences k ds"
    using numberedKey_inj by blast
next
  assume "1 \<le> j \<and> j \<le> occurrences k ds"
  then have "numberedKey k j \<in> set (map (numberedKey k) [1..<Suc (occurrences k ds)])"
    by (auto simp del: upt_Suc)
  then have "numberedKey k j \<in> set (map fst (filter (\<lambda>(key, t). t_keyword t = k) ds))"
    by (simp only: numbered_unfold [OF assms])
  then have "numberedKey k j \<in> set (map fst ds)" by auto
  then show "has ds (numberedKey k j)" by (simp add: has_def)
qed

lemma numbered_getSafeKey:
  assumes "numbered ds"
  shows "getSafeKey ds k = numberedKey k (Suc (occurrences k ds))"
proof -
  have "getSafeKeyFrom ds k 1 = k @ ''-'' @ showNat (Suc (occurrences k ds))"
  proof (rule getSafeKeyFrom_first_free)
    fix j assume "1 \<le> j" "j < Suc (occurrences k ds)"
    then show "has ds (candidateKey k j)"
      using numbered_has [OF assms, of k j] by (simp add: candidateKey_numbered)
  next
    show "\<not> has ds (candidateKey k (Suc (occurrences k ds)))"
      using numbered_has [OF assms, of k "Suc (occurrences k ds)"]
      by (simp add: candidateKey_numbered)
  qed simp
  then show ?thesis by (simp add: getSafeKey_def numberedKey_def)
qed

lemma numbered_insertTag:
  assumes "numbered ds"
  shows "insertTag ds t = ds @ [(numberedKey (t_keyword t) (Suc (occurrences (t_keyword t) ds)), t)]"
    and "numbered (insertTag ds t)"
proof -
  let ?k = "t_keyword t"
  let ?key = "numberedKey ?k (Suc (occurrences ?k ds))"
  have fresh: "\<not> has ds ?key" using numbered_has [OF assms, of ?k "Suc (occurrences ?k ds)"] by simp
  show eq: "insertTag ds t = ds @ [(?key, t)]"
    using fresh by (simp add: insertTag_def numbered_getSafeKey [OF assms] objSet_def)
  show "numbered (insertTag ds t)"
    unfolding numbered_def
  proof
    fix k
    have old: "map fst (filter (\<lambda>(key, t). t_keyword t = k) ds)
        = map (numberedKey k) [1..<Suc (occurrences k ds)]"
      using assms by (rule numbered_unfold)
    show "map fst (filter (\<lambda>(key, t). t_keyword t = k) (insertTag ds t))
        = map (numberedKey k) [1..<Suc (occurrences k (insertTag ds t))]"
    proof (cases "k = ?k")
      case True
      have "occurrences k (insertTag ds t) = Suc (occurrences k ds)"
        using True by (simp add: eq occurrences_def)
      then show ?thesis using True old by (simp add: eq)
    next
      case False
      have "occurrences k (insertTag ds t) = occurrences k ds"
        using False by (auto simp add: eq occurrences_def)
      then show ?thesis using False old by (auto simp add: eq)
    qed
  qed
qed

lemma numbered_insertAll:
  "numbered ds \<Longrightarrow> numbered (insertAll ds tags) \<and> map snd (insertAll ds tags) = map snd ds @ tags"
proof (induction tags arbitrary: ds)
  case Nil
  then show ?case by (simp add: insertAll_def)
next
  case (Cons t tags)
  have n: "numbered (insertTag ds t)" using Cons.prems by (rule numbered_insertTag)
  have "map snd (insertTag ds t) = map snd ds @ [t]"
    by (simp add: numbered_insertTag(1) [OF Cons.prems])
  moreover have "numbered (insertAll (insertTag ds t) tags)
      \<and> map snd (insertAll (insertTag ds t) tags) = map snd (insertTag ds t) @ tags"
    using n by (rule Cons.IH)
  moreover have "insertAll ds (t # tags) = insertAll (insertTag ds t) tags"
    by (simp add: insertAll_def)
  ultimately show ?case by simp
qed

lemma numbered_empty: "numbered []"
  by (simp add: numbered_def occurrences_def)

lemma numberedKey_not_bare: "numberedKey k i \<noteq> k"
  by (simp add: numberedKey_def)

lemma numbered_keys:
  assumes "numbered ds" and "(key, t) \<in> set ds"
  shows "\<exists>i. key = numberedKey (t_keyword t) i"
proof -
  have "key \<in> set (map fst (filter (\<lambda>(key, t'). t_keyword t' = t_keyword t) ds))"
    using assms(2) by (rule key_in_filter)
  then have "key \<in> set (map (numberedKey (t_keyword t)) [1..<Suc (occurrences (t_keyword t) ds)])"
    by (simp only: numbered_unfold [OF assms(1)])
  then show ?thesis by (auto simp del: upt_Suc)
qed

lemma getSafeKeyFrom_fresh:
  "0 < index \<Longrightarrow> \<not> has object (getSafeKeyFrom object key index)"
proof (induction object key index rule: getSafeKeyFrom.induct)
  case (1 object key index)
  show ?case
  proof (cases "has object (candidateKey key index)")
    case True
    then show ?thesis using 1 by (subst getSafeKeyFrom.simps) simp
  next
    case False
    then show ?thesis using 1 by (subst getSafeKeyFrom.simps) (simp add: candidateKey_def)
  qed
qed

lemma insertTag_appends: "insertTag ds t = ds @ [(getSafeKey ds (t_keyword t), t)]"
  using getSafeKeyFrom_fresh [of 1 ds "t_keyword t"]
  by (simp add: insertTag_def objSet_def getSafeKey_def)

text \<open>
  C9. Inserting elements into an empty dataset keeps their order, and the elements whose
  keyword is \<open>k\<close>, n of them, get the keys \<open>k-1\<close>, \<open>k-2\<close>, ..., \<open>k-n\<close> in the order of
  insertion; no element is stored under its bare keyword, the first occurrence included.
\<close>

theorem getSafeKey_numbers_every_occurrence:
  "map snd (insertAll [] tags) = tags
   \<and> map fst (filter (\<lambda>(key, t). t_keyword t = k) (insertAll [] tags))
       = map (\<lambda>i. k @ ''-'' @ showNat i) [1..<Suc (length (filter (\<lambda>t. t_keyword t = k) tags))]
   \<and> list_all (\<lambda>(key, t). key \<noteq> t_keyword t) (insertAll [] tags)"
proof -
  have n: "numbered (insertAll [] tags)" and s: "map snd (insertAll [] tags) = tags"
    using numbered_insertAll [OF numbered_empty, of tags] by simp_all
  have "occurrences k (insertAll [] tags) = length (filter (\<lambda>t. t_keyword t = k) (map snd (insertAll [] tags)))"
    by (simp add: occurrences_def filter_map comp_def case_prod_unfold)
  then have c: "occurrences k (insertAll [] tags) = length (filter (\<lambda>t. t_keyword t = k) tags)"
    by (simp add: s)
  have "map fst (filter (\<lambda>(key, t). t_keyword t = k) (insertAll [] tags))
       = map (numberedKey k) [1..<Suc (occurrences k (insertAll [] tags))]"
    using n by (rule numbered_unfold)
  then have keys: "map fst (filter (\<lambda>(key, t). t_keyword t = k) (insertAll [] tags))
       = map (\<lambda>i. k @ ''-'' @ showNat i) [1..<Suc (length (filter (\<lambda>t. t_keyword t = k) tags))]"
    unfolding c numberedKey_def [abs_def] .
  have "list_all (\<lambda>(key, t). key \<noteq> t_keyword t) (insertAll [] tags)"
    unfolding list_all_iff
  proof (rule ballI)
    fix e assume e: "e \<in> set (insertAll [] tags)"
    obtain key t where kt: "e = (key, t)" by (cases e)
    then obtain i where "key = numberedKey (t_keyword t) i"
      using numbered_keys [OF n] e by blast
    then show "case e of (key, t) \<Rightarrow> key \<noteq> t_keyword t"
      using kt numberedKey_not_bare by simp
  qed
  then show ?thesis using s keys by simp
qed

section \<open>The loop of the dataset reader\<close>

text \<open>A break returns the state as it is; a run that goes on leaves the dataset alone or
  inserts one tag built from the slice of the data that the header announces, and only
  adds to the log. What holds of the first state and is kept by every such run holds of
  the result.\<close>

lemma readDatasetBody_Break:
  "readDatasetBody E data pat iv le sw st = Inr (Break st') \<Longrightarrow> st' = st"
  by (auto simp: readDatasetBody_def Let_def split: sum.splits prod.splits if_splits)



lemma readDatasetBody_extends:
  assumes "readDatasetBody E data pat iv le sw (ds, c, lg) = Inr (Continue (ds', c', lg'))"
  shows "(ds' = ds \<or> (\<exists>tag. ds' = insertTag ds tag)) \<and> take (length lg) lg' = lg"
  using assms
  by (auto simp: readDatasetBody_def Let_def split: sum.splits prod.splits if_splits)

lemma readDatasetLoop_invariant:
  assumes "readDatasetLoop E data pat iv le sw st = Inr st'"
    and "P st"
    and "\<And>s s'. P s \<Longrightarrow> readDatasetBody E data pat iv le sw s = Inr (Continue s') \<Longrightarrow> P s'"
  shows "P st'"
  using assms
proof (induction E data pat iv le sw st rule: readDatasetLoop.induct)
  case (1 E data pat iv le sw st)
  note loop = readDatasetLoop.simps [of E data pat iv le sw st]
  note step = "1.prems"(3)
  show ?case
  proof (cases "readDatasetBody E data pat iv le sw st")
    case (Inl e)
    then show ?thesis using "1.prems"(1) loop by simp
  next
    case (Inr f)
    show ?thesis
    proof (cases f)
      case (Break s)
      then have "s = st" using Inr readDatasetBody_Break by blast
      moreover have "st' = s" using "1.prems"(1) loop Inr Break by simp
      ultimately show ?thesis using "1.prems"(2) by simp
    next
      case (Continue s)
      have l: "readDatasetLoop E data pat iv le sw s = Inr st'"
        using "1.prems"(1) loop Inr Continue by simp
      have b: "readDatasetBody E data pat iv le sw st = Inr (Continue s)"
        using Inr Continue by simp
      have p: "P s" using "1.prems"(2) b by (rule step)
      show ?thesis using Inr Continue l p step by (rule "1.IH")
    qed
  qed
qed

text \<open>The dataset of a read is built by insertions, so its keys are numbered keys.\<close>

lemma built_step:
  assumes "fst s = insertAll [] (map snd (fst s))"
    and "readDatasetBody E data pat iv le sw s = Inr (Continue s')"
  shows "fst s' = insertAll [] (map snd (fst s'))"
proof -
  obtain ds c lg where s: "s = (ds, c, lg)" by (cases s)
  obtain ds' c' lg' where s': "s' = (ds', c', lg')" by (cases s')
  have "readDatasetBody E data pat iv le sw (ds, c, lg) = Inr (Continue (ds', c', lg'))"
    using assms(2) by (simp only: s s')
  then have sh: "(ds' = ds \<or> (\<exists>tag. ds' = insertTag ds tag)) \<and> take (length lg) lg' = lg"
    by (rule readDatasetBody_extends)
  have old: "ds = insertAll [] (map snd ds)" using assms(1) by (simp add: s)
  have "ds' = insertAll [] (map snd ds')"
  proof (cases "ds' = ds")
    case True
    then show ?thesis using old by simp
  next
    case False
    then obtain tag where tag: "ds' = insertTag ds tag" using sh by blast
    have "map snd ds' = map snd ds @ [tag]" by (simp add: tag insertTag_appends)
    then have "insertAll [] (map snd ds') = insertTag (insertAll [] (map snd ds)) tag"
      by (simp add: insertAll_def)
    then show ?thesis using old tag by simp
  qed
  then show ?thesis by (simp add: s')
qed

lemma readDataset_inserts:
  assumes "readDataset E bytes cursor assumed le sw = Inr (r, lg)"
  shows "dataset r = insertAll [] (map snd (dataset r))"
proof -
  let ?data = "snd (splitArray bytes cursor)"
  obtain iv ds c where loop:
      "readDatasetLoop E ?data (getEndianPattern le iv) iv le sw ([], 0, []) = Inr (ds, c, lg)"
    and r: "r = \<lparr>newCursorPosition = cursor + c, dataset = ds\<rparr>"
    using assms by (auto simp: readDataset_def Let_def split: sum.splits prod.splits)
  have "fst ([] :: Dataset, 0 :: nat, [] :: log_entry list)
      = insertAll [] (map snd (fst ([] :: Dataset, 0 :: nat, [] :: log_entry list)))"
    by (simp add: insertAll_def)
  with loop have "fst (ds, c, lg) = insertAll [] (map snd (fst (ds, c, lg)))"
    by (rule readDatasetLoop_invariant [where P = "\<lambda>s. fst s = insertAll [] (map snd (fst s))"])
       (rule built_step)
  then show ?thesis by (simp add: r)
qed

lemma numberedKey_has_dash: "CHR ''-'' \<in> set (numberedKey k i)"
  by (simp add: numberedKey_def)

lemma readDataset_keys_have_dash:
  assumes "readDataset E bytes cursor assumed le sw = Inr (r, lg)"
    and "CHR ''-'' \<notin> set key"
  shows "objGet (dataset r) key = None"
proof -
  have "numbered (insertAll [] (map snd (dataset r)))"
    using numbered_insertAll [OF numbered_empty] by blast
  then have n: "numbered (dataset r)" using readDataset_inserts [OF assms(1)] by simp
  have "key \<notin> fst ` set (dataset r)"
  proof
    assume "key \<in> fst ` set (dataset r)"
    then obtain t where "(key, t) \<in> set (dataset r)" by auto
    then obtain i where "key = numberedKey (t_keyword t) i" using numbered_keys [OF n] by blast
    then show False using assms(2) numberedKey_has_dash by blast
  qed
  then show ?thesis by (simp add: objGet_def map_of_eq_None_iff)
qed

section \<open>The transfer syntax of the main dataset\<close>

text \<open>\<open>readFile\<close> looks the transfer syntax up under the key \<open>00020010\<close>, and the File
  Meta Information holds it under \<open>TransferSyntaxUID-1\<close>: the lookup finds nothing, in
  whatever file.\<close>

lemma transfer_syntax_is_never_found:
  "readFileMetaInfo E bytes cursor = Inr (meta, lg) \<Longrightarrow> objGet (dataset meta) ''00020010'' = None"
  unfolding readFileMetaInfo_def by (rule readDataset_keys_have_dash) simp_all

text \<open>
  C1. The claim is that the mode of the main dataset follows the TransferSyntaxUID of the
  File Meta Information, whatever the first bytes of the dataset look like. On
  \<open>bigEndianFile\<close> the File Meta Information holds the element with the value
  \<open>1.2.840.10008.1.2.2\<close> (explicit VR, big endian), and \<open>readFile\<close> returns
  \<open>isImplicitVR = false\<close> and \<open>isLittleEndian = true\<close>: the mode the probe of the first
  bytes of the dataset guessed.
\<close>

theorem readFile_ignores_transfer_syntax:
  "readFileMetaInfo testEnv bigEndianFile 132 =
     Inr (\<lparr>newCursorPosition = 160,
           dataset =
             [(''TransferSyntaxUID-1'',
               \<lparr>t_VR = ''UI'', t_length = 20,
                t_rawValue = ascii ''1.2.840.10008.1.2.2'' @ [0],
                t_value = JStr ExplicitVRBigEndian,
                t_representations =
                  \<lparr>r_group = 2, r_element = 16, r_hexGroup = ''0002'',
                   r_hexElement = ''0010'', r_tuple = [''0002'', ''0010''],
                   r_string = ''00020010'', r_name = ''Transfer Syntax UID''\<rparr>,
                t_representation = ''00020010'', t_name = ''Transfer Syntax UID'',
                t_VM = ''1'', t_keyword = ''TransferSyntaxUID'', t_retired = []\<rparr>)]\<rparr>, [])
   \<and> map_sum id (\<lambda>(full, logged). (isImplicitVR full, isLittleEndian full))
         (readFile testEnv bigEndianFile) = Inr (False, True)"
  by code_simp

section \<open>The fallback of the element parser\<close>

text \<open>
  C7. The claim is that a VR of two uppercase letters, \<open>Z\<close> included, is read as an
  explicit VR. \<open>isUppercaseLetter\<close> tests the code of the letter with
  \<open>inRange(code, 65, 90)\<close>, whose upper bound is exclusive, so \<open>Z\<close> (90) fails it: the
  explicit header (0010,0010) with the VR bytes \<open>UZ\<close> and the length 2 is read again as an
  implicit header, with no VR and the length 0x00025A55.
\<close>

theorem unpack_VR_with_Z_falls_back:
  "isUppercaseLetter c = (65 \<le> charCodeAt c \<and> charCodeAt c < 90)
   \<and> isUppercaseLetter CHR ''Z'' = False
   \<and> unpack headerUZ headerUZ (getEndianPattern True False) False True 0
       = Inr (16, 16, None, 154197, 8)"
proof -
  have a: "isUppercaseLetter c = (65 \<le> charCodeAt c \<and> charCodeAt c < 90)"
    by (simp add: isUppercaseLetter_def inRange_def charCodeAt_def)
  have b: "isUppercaseLetter CHR ''Z'' = False
   \<and> unpack headerUZ headerUZ (getEndianPattern True False) False True 0
       = Inr (16, 16, None, 154197, 8)"
    by code_simp
  show ?thesis using a b by (rule conjI)
qed

section \<open>The raw value and the length field\<close>







section \<open>Undefined and zero lengths\<close>

text \<open>The dataset and the log only grow in the loop.\<close>

lemma extends_step:
  assumes "extends st s" and "readDatasetBody E data pat iv le sw s = Inr (Continue s')"
  shows "extends st s'"
proof -
  obtain ds c lg where s: "s = (ds, c, lg)" by (cases s)
  obtain ds' c' lg' where s': "s' = (ds', c', lg')" by (cases s')
  have "readDatasetBody E data pat iv le sw (ds, c, lg) = Inr (Continue (ds', c', lg'))"
    using assms(2) by (simp only: s s')
  then have sh: "(ds' = ds \<or> (\<exists>tag. ds' = insertTag ds tag)) \<and> take (length lg) lg' = lg"
    by (rule readDatasetBody_extends)
  then have "\<exists>ext. ds' = ds @ ext" using insertTag_appends by (metis append_Nil2)
  then obtain ext where ext: "ds' = ds @ ext" by blast
  obtain more where more: "lg' = lg @ more" using sh by (metis append_take_drop_id)
  obtain ext0 more0 where old: "ds = fst st @ ext0" "lg = snd (snd st) @ more0"
    using assms(1) by (auto simp: extends_def s)
  have "ds' = fst st @ (ext0 @ ext)" "lg' = snd (snd st) @ (more0 @ more)"
    using ext more old by simp_all
  then show ?thesis unfolding extends_def s' by (metis fst_conv snd_conv)
qed

text \<open>
  C2, as the claim states it, fails: on \<open>undefinedLengthBuffer\<close> the first header has the
  length 0xFFFFFFFF, and the read goes on behind it: the result holds the element
  (0010,0020) that follows, and the cursor is at the end of the buffer. On
  \<open>zeroLengthBuffer\<close> the first header has the length 0; nothing is logged and the read
  goes on as well.
\<close>

theorem read_goes_on_after_undefined_length_counterexample:
  "unpack undefinedLengthBuffer (getArrayRange undefinedLengthBuffer 0 8)
       (getEndianPattern True True) True True 0 = Inr (16, 16, None, 0xFFFFFFFF, 8)
   \<and> summary (readDataset testEnv undefinedLengthBuffer 0 True True None)
       = Inr ([(''PatientID-1'', 2, 2)], 18, [UnhandledNullVR, UnhandledUndefinedLength])
   \<and> summary (readDataset testEnv zeroLengthBuffer 0 True True None)
       = Inr ([(''PatientID-1'', 2, 2)], 18, [])"
  by code_simp

text \<open>
  C2, amended. When the loop of \<open>readDataset\<close> parses a header whose length is 0xFFFFFFFF,
  it logs the condition (an unhandled null VR when the header has no VR, then an unhandled
  SQ for the VRs \<open>UN\<close> and \<open>SQ\<close> and an unhandled undefined length otherwise), inserts no
  element and goes on with the bytes behind the header; when the length is 0 it logs
  nothing, inserts no element and goes on behind the header. The dataset and the log
  accumulated so far stay the beginning of the result, and later elements can follow them.
\<close>

theorem undefined_or_zero_length_is_skipped:
  assumes "length (getArrayRange data c 8) = 8"
    and "unpack data (getArrayRange data c 8) pat iv le c = Inr (g, e, VR, len, hs)"
    and "\<not> (isFunction sw \<and> (the sw) g VR len)"
    and "len = 0xFFFFFFFF \<or> len = 0"
  shows "readDatasetLoop E data pat iv le sw (ds, c, lg)
       = readDatasetLoop E data pat iv le sw
           (ds, c + hs,
            lg @ (if len = 0 then []
                  else (if VR = None then [UnhandledNullVR] else [])
                       @ [if VR = Some ''UN'' \<or> VR = Some ''SQ'' then UnhandledSQ
                          else UnhandledUndefinedLength]))
     \<and> (\<forall>ds' c' lg'. readDatasetLoop E data pat iv le sw (ds, c, lg) = Inr (ds', c', lg')
          \<longrightarrow> take (length ds) ds' = ds \<and> take (length lg) lg' = lg)"
proof -
  have body: "readDatasetBody E data pat iv le sw (ds, c, lg)
       = Inr (Continue (ds, c + hs,
            lg @ (if len = 0 then []
                  else (if VR = None then [UnhandledNullVR] else [])
                       @ [if VR = Some ''UN'' \<or> VR = Some ''SQ'' then UnhandledSQ
                          else UnhandledUndefinedLength])))"
    using assms by (auto simp: readDatasetBody_def Let_def)
  have first: "readDatasetLoop E data pat iv le sw (ds, c, lg)
       = readDatasetLoop E data pat iv le sw
           (ds, c + hs,
            lg @ (if len = 0 then []
                  else (if VR = None then [UnhandledNullVR] else [])
                       @ [if VR = Some ''UN'' \<or> VR = Some ''SQ'' then UnhandledSQ
                          else UnhandledUndefinedLength]))"
    by (subst readDatasetLoop.simps) (simp only: body sum.case flow.case)
  have second: "take (length ds) ds' = ds \<and> take (length lg) lg' = lg"
    if l: "readDatasetLoop E data pat iv le sw (ds, c, lg) = Inr (ds', c', lg')" for ds' c' lg'
  proof -
    have "extends (ds, c, lg) (ds, c, lg)" by (simp add: extends_def)
    with l have "extends (ds, c, lg) (ds', c', lg')"
      by (rule readDatasetLoop_invariant) (rule extends_step)
    then show ?thesis by (auto simp: extends_def)
  qed
  show ?thesis using first second by blast
qed

theorem undefined_or_zero_length_is_skipped_witness:
  "readDatasetLoop testEnv undefinedLengthBuffer (getEndianPattern True True) True True None
       ([], 0, [])
     = readDatasetLoop testEnv undefinedLengthBuffer (getEndianPattern True True) True True None
         ([], 8, [UnhandledNullVR, UnhandledUndefinedLength])
   \<and> map_sum id (\<lambda>(ds, c, logged). (map fst ds, c, logged))
         (readDatasetLoop testEnv undefinedLengthBuffer (getEndianPattern True True) True True
            None ([], 8, [UnhandledNullVR, UnhandledUndefinedLength]))
       = Inr ([''PatientID-1''], 18, [UnhandledNullVR, UnhandledUndefinedLength])"
proof -
  have h1: "length (getArrayRange undefinedLengthBuffer 0 8) = 8" by code_simp
  have h2: "unpack undefinedLengthBuffer (getArrayRange undefinedLengthBuffer 0 8)
       (getEndianPattern True True) True True 0 = Inr (16, 16, None, 0xFFFFFFFF, 8)"
    by code_simp
  have h3: "\<not> (isFunction None \<and> (the None) 16 None 0xFFFFFFFF)"
    by (simp add: isFunction_def)
  have h4: "(0xFFFFFFFF :: nat) = 0xFFFFFFFF \<or> (0xFFFFFFFF :: nat) = 0" by simp
  have a: "readDatasetLoop testEnv undefinedLengthBuffer (getEndianPattern True True) True True
       None ([], 0, [])
     = readDatasetLoop testEnv undefinedLengthBuffer (getEndianPattern True True) True True None
         ([], 8, [UnhandledNullVR, UnhandledUndefinedLength])"
    using undefined_or_zero_length_is_skipped [OF h1 h2 h3 h4, of testEnv "[]" "[]"] by simp
  have b: "map_sum id (\<lambda>(ds, c, logged). (map fst ds, c, logged))
         (readDatasetLoop testEnv undefinedLengthBuffer (getEndianPattern True True) True True
            None ([], 8, [UnhandledNullVR, UnhandledUndefinedLength]))
       = Inr ([''PatientID-1''], 18, [UnhandledNullVR, UnhandledUndefinedLength])"
    by code_simp
  show ?thesis using a b by (rule conjI)
qed

section \<open>Signed pixels\<close>


lemma digitValue_bits [simp]:
  "digitValue CHR ''0'' = Some 0" "digitValue CHR ''1'' = Some 1"
  by (simp_all add: digitValue_def charCodeAt_def)

















section \<open>The window\<close>

text \<open>
  C5, as the claim states it, fails: with the window centre 128 and the width 256 the
  pixels 0, 128 and 255 are not mapped to \<open>#000000\<close>, \<open>#808080\<close> and \<open>#FFFFFF\<close>.
\<close>

theorem identity_window_counterexample:
  "getPixelData (eightBitDataset @ [windowCenterTag 128, windowWidthTag 256])
     \<noteq> Inr (Some [''#000000'', ''#808080'', ''#FFFFFF''])"
  by code_simp

text \<open>
  C5, amended. For pixelRepresentation 0, slope 1, intercept 0, window centre 128, width
  256 and MONOCHROME2 the window rule gives lo = 0, hi = 256 and the scale 255/256, so a
  pixel v is mapped to the floor of 255 v / 256 clamped to the window: 0 to \<open>#000000\<close>,
  128 to \<open>#7F7F7F\<close> (the floor of 127.5) and 255 to \<open>#FEFEFE\<close> (the floor of 254.004).
\<close>

theorem identity_window_colours:
  "getPixelData (eightBitDataset @ [windowCenterTag 128, windowWidthTag 256])
     = Inr (Some [''#000000'', ''#7F7F7F'', ''#FEFEFE''])
   \<and> adjustToWindow [v] (Some (snd (windowCenterTag 128))) (Some (snd (windowWidthTag 256)))
     = Inr [\<lfloor>min (max v 0) 256 * (255 / 256)\<rfloor>]"
proof -
  have a: "getPixelData (eightBitDataset @ [windowCenterTag 128, windowWidthTag 256])
     = Inr (Some [''#000000'', ''#7F7F7F'', ''#FEFEFE''])"
    by code_simp
  have c: "valueOr (Some (snd (windowCenterTag 128))) 610 = Inr 128" by code_simp
  have w: "valueOr (Some (snd (windowWidthTag 256))) 1221 = Inr 256" by code_simp
  have b: "adjustToWindow [v] (Some (snd (windowCenterTag 128))) (Some (snd (windowWidthTag 256)))
     = Inr [\<lfloor>min (max v 0) 256 * (255 / 256)\<rfloor>]"
    by (simp add: adjustToWindow_def c w Let_def)
  show ?thesis using a b by (rule conjI)
qed

text \<open>The safe centre and the safe width are never 0, so the scaling factor never
  divides by 0.\<close>

lemma valueOr_nonzero: "fallback \<noteq> 0 \<Longrightarrow> valueOr t fallback = Inr v \<Longrightarrow> v \<noteq> 0"
  by (auto simp: valueOr_def split: option.splits jsval.splits if_splits)

lemma scalingFactor_defined:
  fixes c w :: rat
  assumes "c \<noteq> 0"
  shows "\<bar>c - w / 2\<bar> + \<bar>c + w / 2\<bar> \<noteq> 0"
  using assms by linarith






section \<open>Throws of the pixel pipeline\<close>






















end
